theory Spec2Isabelle
  imports Complex_Main
begin

section \<open>JavaScript numbers\<close>

text \<open>
  The values of \<^verbatim>\<open>script.js\<close> are JavaScript numbers. The model keeps the three special
  values the code tests for (\<^verbatim>\<open>NaN\<close>, \<^verbatim>\<open>Infinity\<close>, \<^verbatim>\<open>-Infinity\<close>) and takes every finite
  number as an exact real: rounding to 53 bits, overflow to infinity, underflow to zero and
  the sign of zero are not modelled. The operations below follow ECMAScript on these four
  kinds of value. Since a result of \<^verbatim>\<open>+\<close>, \<^verbatim>\<open>*\<close>, \<^verbatim>\<open>/\<close> or \<^verbatim>\<open>Math.pow\<close> on finite numbers is
  rounded in the code, the properties of the calculators are stated through the operations
  \<open>js_add\<close>, \<open>js_mul\<close>, \<open>js_div\<close> and \<open>js_pow\<close> themselves, never through the real number
  they stand for; a concrete value is given only where the arithmetic of doubles is exact
  (integers and binary fractions of moderate size) or up to a tolerance.
\<close>

datatype jsnum = Fin real | PosInf | NegInf | NaN

fun js_isFinite :: "jsnum \<Rightarrow> bool" where
  "js_isFinite (Fin x) = True"
| "js_isFinite PosInf = False"
| "js_isFinite NegInf = False"
| "js_isFinite NaN = False"

fun js_neg :: "jsnum \<Rightarrow> jsnum" where
  "js_neg (Fin x) = Fin (- x)"
| "js_neg PosInf = NegInf"
| "js_neg NegInf = PosInf"
| "js_neg NaN = NaN"

fun js_add :: "jsnum \<Rightarrow> jsnum \<Rightarrow> jsnum" where
  "js_add (Fin x) (Fin y) = Fin (x + y)"
| "js_add NaN b = NaN"
| "js_add a NaN = NaN"
| "js_add PosInf NegInf = NaN"
| "js_add NegInf PosInf = NaN"
| "js_add PosInf b = PosInf"
| "js_add a PosInf = PosInf"
| "js_add NegInf b = NegInf"
| "js_add a NegInf = NegInf"

definition js_sub :: "jsnum \<Rightarrow> jsnum \<Rightarrow> jsnum" where
  "js_sub a b = js_add a (js_neg b)"

text \<open>The infinity with the sign of a non-zero real, \<^verbatim>\<open>NaN\<close> for zero.\<close>

definition signed_inf :: "real \<Rightarrow> jsnum" where
  "signed_inf x = (if x = 0 then NaN else if 0 < x then PosInf else NegInf)"

fun js_mul :: "jsnum \<Rightarrow> jsnum \<Rightarrow> jsnum" where
  "js_mul (Fin x) (Fin y) = Fin (x * y)"
| "js_mul NaN b = NaN"
| "js_mul a NaN = NaN"
| "js_mul (Fin x) PosInf = signed_inf x"
| "js_mul (Fin x) NegInf = signed_inf (- x)"
| "js_mul PosInf (Fin y) = signed_inf y"
| "js_mul NegInf (Fin y) = signed_inf (- y)"
| "js_mul PosInf PosInf = PosInf"
| "js_mul PosInf NegInf = NegInf"
| "js_mul NegInf PosInf = NegInf"
| "js_mul NegInf NegInf = PosInf"

fun js_div :: "jsnum \<Rightarrow> jsnum \<Rightarrow> jsnum" where
  "js_div (Fin x) (Fin y) = (if y = 0 then signed_inf x else Fin (x / y))"
| "js_div NaN b = NaN"
| "js_div a NaN = NaN"
| "js_div (Fin x) PosInf = Fin 0"
| "js_div (Fin x) NegInf = Fin 0"
| "js_div PosInf (Fin y) = (if 0 \<le> y then PosInf else NegInf)"
| "js_div NegInf (Fin y) = (if 0 \<le> y then NegInf else PosInf)"
| "js_div a b = NaN"

text \<open>\<^verbatim>\<open>Math.pow(b, t)\<close> at the exponents a loop counter takes: \<open>t = 0, 1, 2, ...\<close>\<close>

fun js_pow :: "jsnum \<Rightarrow> nat \<Rightarrow> jsnum" where
  "js_pow (Fin b) t = Fin (b ^ t)"
| "js_pow PosInf t = (if t = 0 then Fin 1 else PosInf)"
| "js_pow NegInf t = (if t = 0 then Fin 1 else if odd t then NegInf else PosInf)"
| "js_pow NaN t = (if t = 0 then Fin 1 else NaN)"

text \<open>\<^verbatim>\<open>a < b\<close>, \<^verbatim>\<open>a > b\<close>, \<^verbatim>\<open>a <= b\<close> and \<^verbatim>\<open>a === b\<close>: false as soon as one side is \<^verbatim>\<open>NaN\<close>.\<close>

fun js_lt :: "jsnum \<Rightarrow> jsnum \<Rightarrow> bool" where
  "js_lt (Fin x) (Fin y) = (x < y)"
| "js_lt NaN b = False"
| "js_lt a NaN = False"
| "js_lt a NegInf = False"
| "js_lt PosInf b = False"
| "js_lt a b = True"

definition js_gt :: "jsnum \<Rightarrow> jsnum \<Rightarrow> bool" where
  "js_gt a b = js_lt b a"

definition js_strict_eq :: "jsnum \<Rightarrow> jsnum \<Rightarrow> bool" where
  "js_strict_eq a b = (a \<noteq> NaN \<and> a = b)"

definition js_le :: "jsnum \<Rightarrow> jsnum \<Rightarrow> bool" where
  "js_le a b = (js_lt a b \<or> js_strict_eq a b)"

text \<open>\<^verbatim>\<open>Math.max(a, b)\<close> and \<^verbatim>\<open>Math.floor(a)\<close>.\<close>

definition js_max :: "jsnum \<Rightarrow> jsnum \<Rightarrow> jsnum" where
  "js_max a b = (if a = NaN \<or> b = NaN then NaN else if js_lt a b then b else a)"

fun js_floor :: "jsnum \<Rightarrow> jsnum" where
  "js_floor (Fin x) = Fin (of_int \<lfloor>x\<rfloor>)"
| "js_floor a = a"

section \<open>Inputs and defaults\<close>

text \<open>The object \<^verbatim>\<open>vals\<close> that \<^verbatim>\<open>validateAndReadAll\<close> builds and both calculators read.\<close>

record vals =
  price :: jsnum
  reno :: jsnum
  mgmt :: jsnum
  tax :: jsnum
  rent :: jsnum
  discount :: jsnum
  years :: jsnum

definition DEFAULTS :: vals where
  "DEFAULTS = \<lparr>price = Fin 260000, reno = Fin 17000, mgmt = Fin 2639, tax = Fin 3022,
     rent = Fin 1700, discount = Fin 2, years = Fin 30\<rparr>"

section \<open>The ROI calculator\<close>

record roi_result =
  invest :: jsnum
  annualRent :: jsnum
  annualCosts :: jsnum
  annualNet :: jsnum
  roi :: jsnum
  payback :: jsnum

definition calcROI :: "vals \<Rightarrow> roi_result" where
  "calcROI values =
    (let invest' = js_add (price values) (reno values);
         annualRent' = js_mul (rent values) (Fin 12);
         annualNet' = js_sub annualRent' (js_add (mgmt values) (tax values));
         roi' = (if js_strict_eq invest' (Fin 0) then Fin 0
                 else js_mul (js_div annualNet' invest') (Fin 100));
         payback' = (if js_gt annualNet' (Fin 0) then js_div invest' annualNet' else PosInf)
     in \<lparr>invest = invest', annualRent = annualRent',
         annualCosts = js_add (mgmt values) (tax values),
         annualNet = annualNet', roi = roi', payback = payback'\<rparr>)"

text \<open>
  What \<^verbatim>\<open>writeResultsToCards\<close> does with the payback card: it sets the text to a dash when
  the payback is \<^verbatim>\<open>Infinity\<close>, and starts the animation towards the number otherwise.
\<close>

datatype card_text = Dash | AnimateTo jsnum

definition paybackCard :: "roi_result \<Rightarrow> card_text" where
  "paybackCard results =
    (if js_strict_eq (payback results) PosInf then Dash else AnimateTo (payback results))"

section \<open>The NPV calculator\<close>

record row =
  year :: nat
  net :: jsnum
  factor :: jsnum
  pv :: jsnum
  cumulative :: jsnum

record npv_result =
  npv :: jsnum
  rows :: "row list"
  discountPct :: jsnum
  years :: jsnum

text \<open>\<^verbatim>\<open>const r = Math.max(-0.99, discountPct / 100)\<close>\<close>

definition effective_rate :: "jsnum \<Rightarrow> jsnum" where
  "effective_rate discountPct' = js_max (Fin (- 0.99)) (js_div discountPct' (Fin 100))"

text \<open>
  One pass through the body of the \<^verbatim>\<open>for\<close> loop at counter \<open>t\<close>: the state is the running
  \<^verbatim>\<open>cumulative\<close> and the array \<^verbatim>\<open>rows\<close>, to which the new row is pushed.
\<close>

definition npv_step :: "jsnum \<Rightarrow> jsnum \<Rightarrow> nat \<Rightarrow> jsnum \<times> row list \<Rightarrow> jsnum \<times> row list" where
  "npv_step r netAnnual t st =
    (let factor' = js_div (Fin 1) (js_pow (js_add (Fin 1) r) t);
         pvVal = js_mul netAnnual factor';
         cumulative' = js_add (fst st) pvVal
     in (cumulative',
         snd st @ [\<lparr>year = t, net = netAnnual, factor = factor', pv = pvVal,
                    cumulative = cumulative'\<rparr>]))"

text \<open>
  \<^verbatim>\<open>for (let t = 1; t <= years; t++) { ... }\<close>, entered at counter \<open>t\<close>. The counter is a
  natural number, compared with \<^verbatim>\<open>years\<close> as a JavaScript number. The loop does not end
  when \<^verbatim>\<open>years\<close> is \<^verbatim>\<open>Infinity\<close>: the result is then \<open>None\<close>.
\<close>

partial_function (option) npv_loop ::
  "jsnum \<Rightarrow> jsnum \<Rightarrow> jsnum \<Rightarrow> nat \<Rightarrow> jsnum \<times> row list \<Rightarrow> (jsnum \<times> row list) option" where
  "npv_loop r netAnnual years' t st =
    (if js_le (Fin (real t)) years'
     then npv_loop r netAnnual years' (Suc t) (npv_step r netAnnual t st)
     else Some st)"

declare npv_loop.simps [code]

definition calcNPV :: "vals \<Rightarrow> npv_result option" where
  "calcNPV values =
    (let discountPct' = discount values;
         years' = js_max (Fin 1) (js_floor (vals.years values));
         r = effective_rate discountPct';
         invest' = js_add (price values) (reno values);
         inflowAnnual = js_mul (rent values) (Fin 12);
         outflowAnnual = js_add (mgmt values) (tax values);
         netAnnual = js_sub inflowAnnual outflowAnnual;
         cumulative0 = js_add (Fin 0) (js_neg invest');
         y0 = \<lparr>year = 0, net = js_neg invest', factor = Fin 1, pv = js_neg invest',
                cumulative = cumulative0\<rparr>
     in case npv_loop r netAnnual years' 1 (cumulative0, [y0]) of
          None \<Rightarrow> None
        | Some (cumulative', rows') \<Rightarrow>
            Some \<lparr>npv = cumulative', rows = rows', discountPct = discountPct', years = years'\<rparr>)"

section \<open>Reading and validating the inputs\<close>

text \<open>
  The page is a map from element ids to the text of the element's \<^verbatim>\<open>value\<close>; an id that is
  not in the page has no element. \<^verbatim>\<open>parseFloat\<close> is the built-in of the language, taken as
  a parameter.
\<close>

type_synonym page = "string \<rightharpoonup> string"

definition readInputValue :: "(string \<Rightarrow> jsnum) \<Rightarrow> page \<Rightarrow> string \<Rightarrow> jsnum \<Rightarrow> jsnum" where
  "readInputValue parseFloat doc ident fallback =
    (case doc ident of
       None \<Rightarrow> fallback
     | Some text \<Rightarrow> (let v = parseFloat text in if js_isFinite v then v else fallback))"

text \<open>
  \<^verbatim>\<open>validateAndReadAll\<close> returns \<^verbatim>\<open>vals\<close>; its calls of \<^verbatim>\<open>setFieldMessage(id, msg)\<close> are
  returned beside it, in the order of the source.
\<close>

definition validateAndReadAll ::
  "(string \<Rightarrow> jsnum) \<Rightarrow> page \<Rightarrow> vals \<times> (string \<times> string) list" where
  "validateAndReadAll parseFloat doc =
    (let v = \<lparr>price = readInputValue parseFloat doc ''price'' (price DEFAULTS),
              reno = readInputValue parseFloat doc ''reno'' (reno DEFAULTS),
              mgmt = readInputValue parseFloat doc ''mgmt'' (mgmt DEFAULTS),
              tax = readInputValue parseFloat doc ''tax'' (tax DEFAULTS),
              rent = readInputValue parseFloat doc ''rent'' (rent DEFAULTS),
              discount = readInputValue parseFloat doc ''discount'' (discount DEFAULTS),
              years = js_max (Fin 1)
                (js_floor (readInputValue parseFloat doc ''years'' (vals.years DEFAULTS)))\<rparr>
     in (v,
         [(''price-msg'',
             if js_le (price v) (Fin 0) then ''Price must be positive'' else ''''),
          (''reno-msg'',
             if js_lt (reno v) (Fin 0) then ''Renovation must be non-negative'' else ''''),
          (''mgmt-msg'',
             if js_lt (mgmt v) (Fin 0) then ''Management fee must be non-negative'' else ''''),
          (''tax-msg'',
             if js_lt (tax v) (Fin 0) then ''Property tax must be non-negative'' else ''''),
          (''rent-msg'',
             if js_lt (rent v) (Fin 0) then ''Rent must be non-negative'' else ''''),
          (''discount-msg'',
             if js_lt (discount v) (Fin (- 99)) \<or> js_gt (discount v) (Fin 1000)
             then ''Discount rate seems unusual'' else ''''),
          (''years-msg'',
             if js_le (vals.years v) (Fin 0) then ''Years must be at least 1'' else '''')]))"

text \<open>
  The numeric part of \<^verbatim>\<open>calculate\<close>: the validated inputs go to both calculators, whatever
  the messages say.
\<close>

definition calculate :: "(string \<Rightarrow> jsnum) \<Rightarrow> page \<Rightarrow> roi_result \<times> npv_result option" where
  "calculate parseFloat doc =
    (let inputs = fst (validateAndReadAll parseFloat doc)
     in (calcROI inputs, calcNPV inputs))"

section \<open>Notions used in the statements\<close>

text \<open>
  The parsed text of an input element, if the page has the element; an entry is invalid
  when the page has no such element or its text does not parse to a finite number.
\<close>

definition parsed_entry :: "(string \<Rightarrow> jsnum) \<Rightarrow> page \<Rightarrow> string \<Rightarrow> jsnum option" where
  "parsed_entry parseFloat doc ident = map_option parseFloat (doc ident)"

definition entry_invalid :: "(string \<Rightarrow> jsnum) \<Rightarrow> page \<Rightarrow> string \<Rightarrow> bool" where
  "entry_invalid parseFloat doc ident =
    (case parsed_entry parseFloat doc ident of None \<Rightarrow> True | Some a \<Rightarrow> \<not> js_isFinite a)"

text \<open>
  A parser and two pages for the examples. In the first page the price is negative, the
  rent does not parse, the discount parses to \<^verbatim>\<open>Infinity\<close>, the number of years has a
  fraction, and the other three elements are missing. In the second page all seven entries
  are finite, some of them negative.
\<close>

definition example_parse :: "string \<Rightarrow> jsnum" where
  "example_parse text =
    (case map_of [(''-5'', Fin (- 5)), (''0'', Fin 0), (''10'', Fin 10), (''20'', Fin 20),
        (''-1'', Fin (- 1)), (''-150'', Fin (- 150)), (''2.7'', Fin 2.7),
        (''Infinity'', PosInf)] text of
       None \<Rightarrow> NaN
     | Some a \<Rightarrow> a)"

definition example_page :: page where
  "example_page = [''price'' \<mapsto> ''-5'', ''rent'' \<mapsto> ''abc'', ''discount'' \<mapsto> ''Infinity'',
     ''years'' \<mapsto> ''2.7'']"

definition finite_page :: page where
  "finite_page = [''price'' \<mapsto> ''-5'', ''reno'' \<mapsto> ''0'', ''mgmt'' \<mapsto> ''10'', ''tax'' \<mapsto> ''20'',
     ''rent'' \<mapsto> ''-1'', ''discount'' \<mapsto> ''-150'', ''years'' \<mapsto> ''2.7'']"

text \<open>A number is close to a real \<open>x\<close>, up to \<open>eps\<close>, when it is finite and at most \<open>eps\<close> away.\<close>

definition close_to :: "real \<Rightarrow> jsnum \<Rightarrow> real \<Rightarrow> bool" where
  "close_to eps a x =
    (case a of Fin b \<Rightarrow> abs (b - x) \<le> eps | PosInf \<Rightarrow> False | NegInf \<Rightarrow> False | NaN \<Rightarrow> False)"

section \<open>Invariant of the NPV loop\<close>

text \<open>
  The state of the loop keeps the running sums: the array is not empty, \<^verbatim>\<open>cumulative\<close> is
  the last row's \<^verbatim>\<open>cumulative\<close>, and every row's \<^verbatim>\<open>cumulative\<close> is the sum, from \<open>0\<close> and
  in the order of the rows, of the \<^verbatim>\<open>pv\<close> of the rows up to it.
\<close>

definition running_sums :: "jsnum \<times> row list \<Rightarrow> bool" where
  "running_sums st \<longleftrightarrow>
     snd st \<noteq> [] \<and> fst st = cumulative (last (snd st)) \<and>
     (\<forall>i<length (snd st).
        cumulative (snd st ! i) = foldl js_add (Fin 0) (map pv (take (Suc i) (snd st))))"

section \<open>Comparisons of numbers\<close>

lemma js_le_Fin [simp]: "js_le (Fin x) (Fin y) = (x \<le> y)"
  by (auto simp: js_le_def js_strict_eq_def)

lemma js_le_NaN [simp]: "js_le a NaN = False"
  by (cases a) (auto simp: js_le_def js_strict_eq_def)

lemma js_strict_eq_Fin [simp]: "js_strict_eq a (Fin x) = (a = Fin x)"
  by (auto simp: js_strict_eq_def)

lemma js_gt_Fin [simp]: "js_gt (Fin x) (Fin y) = (y < x)"
  by (simp add: js_gt_def)

section \<open>Properties of the ROI calculator\<close>

lemma calcROI_fields:
  "invest (calcROI values) = js_add (price values) (reno values)"
  "annualNet (calcROI values) =
     js_sub (js_mul (rent values) (Fin 12)) (js_add (mgmt values) (tax values))"
  "roi (calcROI values) =
     (if js_strict_eq (invest (calcROI values)) (Fin 0) then Fin 0
      else js_mul (js_div (annualNet (calcROI values)) (invest (calcROI values))) (Fin 100))"
  "payback (calcROI values) =
     (if js_gt (annualNet (calcROI values)) (Fin 0)
      then js_div (invest (calcROI values)) (annualNet (calcROI values)) else PosInf)"
  by (simp_all add: calcROI_def Let_def)

text \<open>
  Claim C1. For every input, \<^verbatim>\<open>calcROI\<close> returns \<^verbatim>\<open>invest\<close> (totalInvestment) equal to
  \<^verbatim>\<open>price + reno\<close> and \<^verbatim>\<open>annualNet\<close> (annualNetIncome) equal to
  \<^verbatim>\<open>rent * 12 - (mgmt + tax)\<close>, with the \<^verbatim>\<open>+\<close>, \<^verbatim>\<open>*\<close> and \<^verbatim>\<open>-\<close> of the code. For a price of
  100000, a renovation of 25000.5, a management fee of 1000, a tax of 2000.5 and a rent of
  1000.25, these are 125000.5 and 9002.5.
\<close>

theorem calcROI_invest_annualNet:
  "invest (calcROI v) = js_add (price v) (reno v) \<and>
   annualNet (calcROI v) = js_sub (js_mul (rent v) (Fin 12)) (js_add (mgmt v) (tax v)) \<and>
   invest (calcROI \<lparr>price = Fin 100000, reno = Fin 25000.5, mgmt = Fin 1000,
      tax = Fin 2000.5, rent = Fin 1000.25, discount = Fin 2, years = Fin 30\<rparr>) = Fin 125000.5 \<and>
   annualNet (calcROI \<lparr>price = Fin 100000, reno = Fin 25000.5, mgmt = Fin 1000,
      tax = Fin 2000.5, rent = Fin 1000.25, discount = Fin 2, years = Fin 30\<rparr>) = Fin 9002.5"
  by (simp add: calcROI_fields js_sub_def)

text \<open>
  Claim C2. \<^verbatim>\<open>roi\<close> (roiPercent) is \<open>0\<close> when \<^verbatim>\<open>invest\<close> is \<open>0\<close> and
  \<^verbatim>\<open>annualNet / invest * 100\<close> otherwise, with the \<^verbatim>\<open>/\<close> and \<^verbatim>\<open>*\<close> of the code. At
  \<^verbatim>\<open>invest = 0\<close> the result is the finite number \<open>0\<close>, not the value of the guarded
  expression, whose division by zero is never finite.
\<close>

theorem calcROI_roi:
  "roi (calcROI v) =
     (if invest (calcROI v) = Fin 0 then Fin 0
      else js_mul (js_div (annualNet (calcROI v)) (invest (calcROI v))) (Fin 100)) \<and>
   (invest (calcROI v) = Fin 0 \<longrightarrow>
      js_isFinite (roi (calcROI v)) \<and>
      \<not> js_isFinite (js_mul (js_div (annualNet (calcROI v)) (invest (calcROI v))) (Fin 100)))"
proof -
  have "\<not> js_isFinite (js_mul (js_div a (Fin 0)) (Fin 100))" for a
    by (cases a) (simp_all add: signed_inf_def)
  then show ?thesis by (simp add: calcROI_fields)
qed

text \<open>
  Witness of C2: a purchase with no investment, where the guarded division would give
  \<^verbatim>\<open>Infinity\<close>, and an investment of 20000 with a net income of 10000, where the division
  and the product are exact: \<open>10000 / 20000 * 100 = 50\<close>.
\<close>

theorem calcROI_roi_witness:
  "invest (calcROI \<lparr>price = Fin 0, reno = Fin 0, mgmt = Fin 2639, tax = Fin 3022,
      rent = Fin 1700, discount = Fin 2, years = Fin 30\<rparr>) = Fin 0 \<and>
   roi (calcROI \<lparr>price = Fin 0, reno = Fin 0, mgmt = Fin 2639, tax = Fin 3022,
      rent = Fin 1700, discount = Fin 2, years = Fin 30\<rparr>) = Fin 0 \<and>
   js_div (annualNet (calcROI \<lparr>price = Fin 0, reno = Fin 0, mgmt = Fin 2639, tax = Fin 3022,
      rent = Fin 1700, discount = Fin 2, years = Fin 30\<rparr>)) (Fin 0) = PosInf \<and>
   invest (calcROI \<lparr>price = Fin 20000, reno = Fin 0, mgmt = Fin 1000, tax = Fin 1000,
      rent = Fin 1000, discount = Fin 2, years = Fin 30\<rparr>) = Fin 20000 \<and>
   roi (calcROI \<lparr>price = Fin 20000, reno = Fin 0, mgmt = Fin 1000, tax = Fin 1000,
      rent = Fin 1000, discount = Fin 2, years = Fin 30\<rparr>) = Fin 50"
proof -
  note zero = calcROI_roi [of "\<lparr>price = Fin 0, reno = Fin 0, mgmt = Fin 2639, tax = Fin 3022,
      rent = Fin 1700, discount = Fin 2, years = Fin 30\<rparr>"]
  note pos = calcROI_roi [of "\<lparr>price = Fin 20000, reno = Fin 0, mgmt = Fin 1000, tax = Fin 1000,
      rent = Fin 1000, discount = Fin 2, years = Fin 30\<rparr>"]
  from zero pos show ?thesis
    by (simp add: calcROI_fields js_sub_def signed_inf_def)
qed

text \<open>
  Claim C3. \<^verbatim>\<open>payback\<close> (paybackYears) is \<^verbatim>\<open>invest / annualNet\<close>, with the \<^verbatim>\<open>/\<close> of the code,
  when \<^verbatim>\<open>annualNet > 0\<close> and \<^verbatim>\<open>Infinity\<close> otherwise, so whenever \<^verbatim>\<open>annualNet <= 0\<close>;
  \<^verbatim>\<open>writeResultsToCards\<close> then sets the text of the payback card to the dash instead of
  animating a number.
\<close>

theorem calcROI_payback:
  "payback (calcROI v) =
     (if js_gt (annualNet (calcROI v)) (Fin 0)
      then js_div (invest (calcROI v)) (annualNet (calcROI v)) else PosInf) \<and>
   (js_le (annualNet (calcROI v)) (Fin 0) \<longrightarrow>
      payback (calcROI v) = PosInf \<and> paybackCard (calcROI v) = Dash)"
proof -
  have "\<not> js_gt a (Fin 0)" if "js_le a (Fin 0)" for a
    using that by (cases a) (auto simp: js_le_def js_gt_def)
  then show ?thesis
    by (auto simp: calcROI_fields paybackCard_def js_strict_eq_def)
qed

text \<open>
  Witness of C3: a rent that does not cover the costs (\<open>1200 - 5661 = - 4461\<close>), and an
  investment of 20000 with a net income of 10000, where the division is exact:
  \<open>20000 / 10000 = 2\<close>.
\<close>

theorem calcROI_payback_witness:
  "js_le (annualNet (calcROI \<lparr>price = Fin 260000, reno = Fin 17000, mgmt = Fin 2639,
      tax = Fin 3022, rent = Fin 100, discount = Fin 2, years = Fin 30\<rparr>)) (Fin 0) \<and>
   payback (calcROI \<lparr>price = Fin 260000, reno = Fin 17000, mgmt = Fin 2639,
      tax = Fin 3022, rent = Fin 100, discount = Fin 2, years = Fin 30\<rparr>) = PosInf \<and>
   paybackCard (calcROI \<lparr>price = Fin 260000, reno = Fin 17000, mgmt = Fin 2639,
      tax = Fin 3022, rent = Fin 100, discount = Fin 2, years = Fin 30\<rparr>) = Dash \<and>
   js_gt (annualNet (calcROI \<lparr>price = Fin 20000, reno = Fin 0, mgmt = Fin 1000,
      tax = Fin 1000, rent = Fin 1000, discount = Fin 2, years = Fin 30\<rparr>)) (Fin 0) \<and>
   payback (calcROI \<lparr>price = Fin 20000, reno = Fin 0, mgmt = Fin 1000,
      tax = Fin 1000, rent = Fin 1000, discount = Fin 2, years = Fin 30\<rparr>) = Fin 2"
proof -
  note neg = calcROI_payback [of "\<lparr>price = Fin 260000, reno = Fin 17000, mgmt = Fin 2639,
      tax = Fin 3022, rent = Fin 100, discount = Fin 2, years = Fin 30\<rparr>"]
  note pos = calcROI_payback [of "\<lparr>price = Fin 20000, reno = Fin 0, mgmt = Fin 1000,
      tax = Fin 1000, rent = Fin 1000, discount = Fin 2, years = Fin 30\<rparr>"]
  from neg pos show ?thesis
    by (simp add: calcROI_fields js_sub_def)
qed

section \<open>Properties of the NPV calculator\<close>

subsection \<open>The horizon and the end of the loop\<close>

lemma npv_loop_fin:
  "npv_loop r na (Fin (real n)) t st = Some (fold (npv_step r na) [t..<Suc n] st)"
proof (induction "Suc n - t" arbitrary: t st)
  case 0
  then have "\<not> t \<le> n" by simp
  then show ?case by (subst npv_loop.simps) simp
next
  case (Suc k)
  then have le: "t \<le> n" and k: "k = Suc n - Suc t" by simp_all
  have "[t..<Suc n] = t # [Suc t..<Suc n]" using le by (simp add: upt_conv_Cons)
  then show ?case using Suc.hyps(1)[OF k] le by (subst npv_loop.simps) simp
qed

lemma npv_loop_NaN: "npv_loop r na NaN t st = Some st"
  by (subst npv_loop.simps) simp

lemma npv_loop_Some_not_PosInf:
  assumes "npv_loop r na y t st = Some res"
  shows "y \<noteq> PosInf"
proof (rule npv_loop.raw_induct [where P = "\<lambda>r na y t st res. y \<noteq> PosInf", OF _ assms])
  fix f r na y t st res
  assume IH: "\<And>r na y t st res. f r na y t st = Some res \<Longrightarrow> y \<noteq> PosInf"
    and eq: "(if js_le (Fin (real t)) y then f r na y (Suc t) (npv_step r na t st) else Some st) = Some res"
  show "y \<noteq> PosInf"
  proof (cases "js_le (Fin (real t)) y")
    case True
    with eq IH show ?thesis by simp
  next
    case False
    then show ?thesis by (auto simp: js_le_def)
  qed
qed

lemma npv_loop_PosInf: "npv_loop r na PosInf t st = None"
  using npv_loop_Some_not_PosInf [of r na PosInf t st] by (cases "npv_loop r na PosInf t st") auto

lemma js_max_1_Fin: "js_max (Fin 1) (Fin x) = Fin (max 1 x)"
  by (simp add: js_max_def max_def)

lemma js_max_floor_Fin:
  "js_max (Fin 1) (js_floor (Fin x)) = Fin (real (nat (max 1 \<lfloor>x\<rfloor>)))"
proof -
  have "max 1 (real_of_int \<lfloor>x\<rfloor>) = real_of_int (max 1 \<lfloor>x\<rfloor>)" by (simp only: of_int_max of_int_1)
  also have "\<dots> = real (nat (max 1 \<lfloor>x\<rfloor>))" by (simp only: of_nat_nat max.cobounded1 zero_le_one order_trans[OF zero_le_one max.cobounded1])
  finally show ?thesis by (simp only: js_floor.simps js_max_1_Fin)
qed

lemma horizon_cases:
  "js_max (Fin 1) (js_floor y) =
    (case y of Fin x \<Rightarrow> Fin (real (nat (max 1 \<lfloor>x\<rfloor>))) | PosInf \<Rightarrow> PosInf | NegInf \<Rightarrow> Fin 1 | NaN \<Rightarrow> NaN)"
  by (cases y) (simp_all add: js_max_floor_Fin, simp_all add: js_max_def)

subsection \<open>The loop body, run over a list of counters\<close>

lemma fold_npv_step_length:
  "length (snd (fold (npv_step r na) ks st)) = length (snd st) + length ks"
  by (induction ks arbitrary: st) (simp_all add: npv_step_def Let_def)

lemma fold_npv_step_year:
  "map year (snd (fold (npv_step r na) ks st)) = map year (snd st) @ ks"
  by (induction ks arbitrary: st) (simp_all add: npv_step_def Let_def)

lemma fold_npv_step_net:
  "map net (snd (fold (npv_step r na) ks st)) = map net (snd st) @ map (\<lambda>t. na) ks"
  by (induction ks arbitrary: st) (simp_all add: npv_step_def Let_def)

lemma fold_npv_step_factor:
  "map factor (snd (fold (npv_step r na) ks st)) =
     map factor (snd st) @ map (\<lambda>t. js_div (Fin 1) (js_pow (js_add (Fin 1) r) t)) ks"
  by (induction ks arbitrary: st) (simp_all add: npv_step_def Let_def)

lemma fold_npv_step_pv:
  "map pv (snd (fold (npv_step r na) ks st)) =
     map pv (snd st) @ map (\<lambda>t. js_mul na (js_div (Fin 1) (js_pow (js_add (Fin 1) r) t))) ks"
  by (induction ks arbitrary: st) (simp_all add: npv_step_def Let_def)

lemma running_sums_total:
  assumes "running_sums st"
  shows "fst st = foldl js_add (Fin 0) (map pv (snd st))"
proof -
  from assms have ne: "snd st \<noteq> []" and c: "fst st = cumulative (last (snd st))"
    and all: "\<And>i. i < length (snd st) \<Longrightarrow>
        cumulative (snd st ! i) = foldl js_add (Fin 0) (map pv (take (Suc i) (snd st)))"
    by (simp_all add: running_sums_def)
  from ne have "last (snd st) = snd st ! (length (snd st) - 1)" by (simp add: last_conv_nth)
  with all [of "length (snd st) - 1"] ne c show ?thesis by simp
qed

lemma running_sums_step:
  assumes "running_sums st"
  shows "running_sums (npv_step r na t st)"
proof -
  obtain c rs where st: "st = (c, rs)" by (cases st)
  from assms st have all: "\<And>i. i < length rs \<Longrightarrow>
        cumulative (rs ! i) = foldl js_add (Fin 0) (map pv (take (Suc i) rs))"
    by (simp add: running_sums_def)
  have tot: "c = foldl js_add (Fin 0) (map pv rs)"
    using running_sums_total [OF assms] st by simp
  define p where "p = js_mul na (js_div (Fin 1) (js_pow (js_add (Fin 1) r) t))"
  define new where "new = \<lparr>year = t, net = na, factor = js_div (Fin 1) (js_pow (js_add (Fin 1) r) t),
      pv = p, cumulative = js_add c p\<rparr>"
  have step: "npv_step r na t st = (js_add c p, rs @ [new])"
    by (simp add: npv_step_def Let_def st new_def p_def)
  have "cumulative ((rs @ [new]) ! i) = foldl js_add (Fin 0) (map pv (take (Suc i) (rs @ [new])))"
    if "i < length (rs @ [new])" for i
  proof (cases "i < length rs")
    case True
    then show ?thesis using all [OF True] by (simp add: nth_append)
  next
    case False
    with that have "i = length rs" by simp
    then show ?thesis using tot by (simp add: new_def)
  qed
  then show ?thesis unfolding step by (simp add: running_sums_def new_def)
qed

lemma running_sums_fold:
  "running_sums st \<Longrightarrow> running_sums (fold (npv_step r na) ks st)"
  by (induction ks arbitrary: st) (simp_all add: running_sums_step)

lemma running_sums_init:
  "running_sums (js_add (Fin 0) p, [\<lparr>year = 0, net = n, factor = f, pv = p, cumulative = js_add (Fin 0) p\<rparr>])"
  by (simp add: running_sums_def)

subsection \<open>The result of the NPV calculator\<close>

lemma calcNPV_Fin:
  fixes v :: vals
  defines "p0 \<equiv> js_neg (js_add (price v) (reno v))"
  defines "stp \<equiv> npv_step (effective_rate (discount v))
     (js_sub (js_mul (rent v) (Fin 12)) (js_add (mgmt v) (tax v)))"
  defines "st0 \<equiv> (js_add (Fin 0) p0,
     [\<lparr>year = 0, net = p0, factor = Fin 1, pv = p0, cumulative = js_add (Fin 0) p0\<rparr>])"
  assumes y: "vals.years v = Fin y"
  shows "calcNPV v =
    Some \<lparr>npv = fst (fold stp [1..<Suc (nat (max 1 \<lfloor>y\<rfloor>))] st0),
          rows = snd (fold stp [1..<Suc (nat (max 1 \<lfloor>y\<rfloor>))] st0),
          discountPct = discount v,
          years = Fin (real (nat (max 1 \<lfloor>y\<rfloor>)))\<rparr>"
  unfolding calcNPV_def Let_def y js_max_floor_Fin npv_loop_fin p0_def stp_def st0_def
  by (simp add: case_prod_beta)

lemma calcNPV_fold:
  fixes v :: vals
  defines "p0 \<equiv> js_neg (js_add (price v) (reno v))"
  defines "stp \<equiv> npv_step (effective_rate (discount v))
     (js_sub (js_mul (rent v) (Fin 12)) (js_add (mgmt v) (tax v)))"
  defines "st0 \<equiv> (js_add (Fin 0) p0,
     [\<lparr>year = 0, net = p0, factor = Fin 1, pv = p0, cumulative = js_add (Fin 0) p0\<rparr>])"
  assumes y: "vals.years v \<noteq> PosInf"
  shows "\<exists>ks yrs. calcNPV v =
    Some \<lparr>npv = fst (fold stp ks st0), rows = snd (fold stp ks st0),
          discountPct = discount v, years = yrs\<rparr>"
proof (cases "vals.years v")
  case (Fin x)
  show ?thesis using calcNPV_Fin [OF Fin] unfolding p0_def stp_def st0_def by blast
next
  case PosInf
  with y show ?thesis by simp
next
  case NegInf
  have one: "Fin 1 = Fin (real 1)" by simp
  have "js_max (Fin 1) (js_floor NegInf) = Fin 1" by (simp add: js_max_def)
  then have "calcNPV v =
    Some \<lparr>npv = fst (fold stp [1..<Suc 1] st0), rows = snd (fold stp [1..<Suc 1] st0),
          discountPct = discount v, years = Fin 1\<rparr>"
    unfolding calcNPV_def Let_def NegInf p0_def stp_def st0_def
    by (simp only: one npv_loop_fin) (simp add: case_prod_beta)
  then show ?thesis by blast
next
  case NaN
  have "js_max (Fin 1) (js_floor NaN) = NaN" by (simp add: js_max_def)
  then have "calcNPV v =
    Some \<lparr>npv = fst (fold stp [] st0), rows = snd (fold stp [] st0),
          discountPct = discount v, years = NaN\<rparr>"
    unfolding calcNPV_def Let_def NaN p0_def stp_def st0_def
    by (simp add: npv_loop_NaN)
  then show ?thesis by blast
qed

text \<open>With \<^verbatim>\<open>years\<close> at \<^verbatim>\<open>Infinity\<close> the loop never ends.\<close>

lemma calcNPV_PosInf: "vals.years v = PosInf \<Longrightarrow> calcNPV v = None"
  by (simp add: calcNPV_def Let_def js_max_def npv_loop_PosInf)

lemma fold_npv_step_nth0:
  "snd st \<noteq> [] \<Longrightarrow> snd (fold (npv_step r na) ks st) ! 0 = snd st ! 0"
proof (induction ks arbitrary: st)
  case Nil
  then show ?case by simp
next
  case (Cons k ks)
  have "snd (npv_step r na k st) \<noteq> []" by (simp add: npv_step_def Let_def)
  from Cons.IH [OF this] Cons.prems show ?case
    by (simp add: npv_step_def Let_def nth_append)
qed

lemma nth_after_first:
  assumes "length xs = 1" "1 \<le> t" "t \<le> n"
  shows "(xs @ map h [1..<Suc n]) ! t = h t"
  using assms by (simp add: nth_append del: upt_Suc)

lemma upt_from_0: "[0] @ [1..<Suc n] = [0..<Suc n]"
  by (simp add: upt_conv_Cons)

lemma calcNPV_later_rows:
  assumes y: "vals.years v = Fin y"
  shows "\<exists>res. calcNPV v = Some res \<and>
     npv_result.years res = Fin (real (nat (max 1 \<lfloor>y\<rfloor>))) \<and>
     length (rows res) = Suc (nat (max 1 \<lfloor>y\<rfloor>)) \<and>
     map year (rows res) = [0..<Suc (nat (max 1 \<lfloor>y\<rfloor>))] \<and>
     (\<forall>t. 1 \<le> t \<and> t \<le> nat (max 1 \<lfloor>y\<rfloor>) \<longrightarrow>
        net (rows res ! t) = js_sub (js_mul (rent v) (Fin 12)) (js_add (mgmt v) (tax v)) \<and>
        factor (rows res ! t) =
          js_div (Fin 1) (js_pow (js_add (Fin 1) (effective_rate (discount v))) t) \<and>
        pv (rows res ! t) =
          js_mul (js_sub (js_mul (rent v) (Fin 12)) (js_add (mgmt v) (tax v)))
            (js_div (Fin 1) (js_pow (js_add (Fin 1) (effective_rate (discount v))) t)))"
proof -
  define n where "n = nat (max 1 \<lfloor>y\<rfloor>)"
  define r where "r = effective_rate (discount v)"
  define na where "na = js_sub (js_mul (rent v) (Fin 12)) (js_add (mgmt v) (tax v))"
  define p0 where "p0 = js_neg (js_add (price v) (reno v))"
  define st0 where "st0 = (js_add (Fin 0) p0,
     [\<lparr>year = 0, net = p0, factor = Fin 1, pv = p0, cumulative = js_add (Fin 0) p0\<rparr>])"
  define rs where "rs = snd (fold (npv_step r na) [1..<Suc n] st0)"
  define res where "res = \<lparr>npv = fst (fold (npv_step r na) [1..<Suc n] st0), rows = rs,
     discountPct = discount v, years = Fin (real n)\<rparr>"
  have some: "calcNPV v = Some res"
    using calcNPV_Fin [OF y] by (simp add: res_def rs_def st0_def p0_def na_def r_def n_def)
  have len0: "length (snd st0) = 1" by (simp add: st0_def)
  have len: "length rs = Suc n"
    by (simp add: rs_def fold_npv_step_length len0)
  have yrs: "map year rs = [0..<Suc n]"
    unfolding rs_def fold_npv_step_year by (simp add: st0_def upt_conv_Cons)
  have later: "net (rs ! t) = na \<and>
      factor (rs ! t) = js_div (Fin 1) (js_pow (js_add (Fin 1) r) t) \<and>
      pv (rs ! t) = js_mul na (js_div (Fin 1) (js_pow (js_add (Fin 1) r) t))"
    if t: "1 \<le> t" "t \<le> n" for t
  proof -
    from t len have lt: "t < length rs" by simp
    have "net (rs ! t) = map net rs ! t" using lt by simp
    also have "\<dots> = na"
      unfolding rs_def fold_npv_step_net by (rule nth_after_first) (use len0 t in simp_all)
    finally have 1: "net (rs ! t) = na" .
    have "factor (rs ! t) = map factor rs ! t" using lt by simp
    also have "\<dots> = js_div (Fin 1) (js_pow (js_add (Fin 1) r) t)"
      unfolding rs_def fold_npv_step_factor by (rule nth_after_first) (use len0 t in simp_all)
    finally have 2: "factor (rs ! t) = js_div (Fin 1) (js_pow (js_add (Fin 1) r) t)" .
    have "pv (rs ! t) = map pv rs ! t" using lt by simp
    also have "\<dots> = js_mul na (js_div (Fin 1) (js_pow (js_add (Fin 1) r) t))"
      unfolding rs_def fold_npv_step_pv by (rule nth_after_first) (use len0 t in simp_all)
    finally have 3: "pv (rs ! t) = js_mul na (js_div (Fin 1) (js_pow (js_add (Fin 1) r) t))" .
    from 1 2 3 show ?thesis by simp
  qed
  have "npv_result.years res = Fin (real n)" "rows res = rs" by (simp_all add: res_def)
  with some len yrs later show ?thesis
    unfolding n_def [symmetric] r_def [symmetric] na_def [symmetric] by auto
qed

lemma calcNPV_first_row_and_sums:
  assumes y: "vals.years v \<noteq> PosInf"
  shows "\<exists>res. calcNPV v = Some res \<and> rows res \<noteq> [] \<and>
     rows res ! 0 = \<lparr>year = 0, net = js_neg (js_add (price v) (reno v)), factor = Fin 1,
        pv = js_neg (js_add (price v) (reno v)),
        cumulative = js_add (Fin 0) (js_neg (js_add (price v) (reno v)))\<rparr> \<and>
     discountPct res = discount v \<and>
     running_sums (npv res, rows res)"
proof -
  define r where "r = effective_rate (discount v)"
  define na where "na = js_sub (js_mul (rent v) (Fin 12)) (js_add (mgmt v) (tax v))"
  define p0 where "p0 = js_neg (js_add (price v) (reno v))"
  define st0 where "st0 = (js_add (Fin 0) p0,
     [\<lparr>year = 0, net = p0, factor = Fin 1, pv = p0, cumulative = js_add (Fin 0) p0\<rparr>])"
  from calcNPV_fold [OF y] obtain ks yrs where some: "calcNPV v =
      Some \<lparr>npv = fst (fold (npv_step r na) ks st0), rows = snd (fold (npv_step r na) ks st0),
        discountPct = discount v, years = yrs\<rparr>"
    unfolding r_def na_def p0_def st0_def by blast
  have rs: "running_sums (fold (npv_step r na) ks st0)"
    by (rule running_sums_fold) (simp add: st0_def running_sums_init)
  then have ne: "snd (fold (npv_step r na) ks st0) \<noteq> []" by (simp add: running_sums_def)
  have "snd (fold (npv_step r na) ks st0) ! 0 = snd st0 ! 0"
    by (rule fold_npv_step_nth0) (simp add: st0_def)
  then have r0: "snd (fold (npv_step r na) ks st0) ! 0 =
      \<lparr>year = 0, net = p0, factor = Fin 1, pv = p0, cumulative = js_add (Fin 0) p0\<rparr>"
    by (simp add: st0_def)
  from some rs ne r0 show ?thesis unfolding p0_def by simp
qed

subsection \<open>The claims about the NPV calculator\<close>

text \<open>
  Claim C4. The effective discount rate is \<^verbatim>\<open>r = Math.max(-0.99, discount / 100)\<close>, and in
  every row \<open>t\<close> from \<open>1\<close> to the horizon \<^verbatim>\<open>factor\<close> is \<^verbatim>\<open>1 / Math.pow(1 + r, t)\<close> and \<^verbatim>\<open>pv\<close>
  is \<^verbatim>\<open>netAnnual * factor\<close>, with the operations of the code. A discount of \<open>- 150\<close> gives
  \<open>r = - 0.99\<close>, the first argument of \<^verbatim>\<open>Math.max\<close>, and not \<open>- 1.5\<close>.
\<close>

theorem calcNPV_discounting:
  assumes "vals.years v = Fin y"
  shows "(\<exists>res. calcNPV v = Some res \<and>
     (\<forall>t. 1 \<le> t \<and> t \<le> nat (max 1 \<lfloor>y\<rfloor>) \<longrightarrow>
        factor (rows res ! t) =
          js_div (Fin 1) (js_pow (js_add (Fin 1) (effective_rate (discount v))) t) \<and>
        pv (rows res ! t) =
          js_mul (js_sub (js_mul (rent v) (Fin 12)) (js_add (mgmt v) (tax v)))
            (factor (rows res ! t)))) \<and>
   effective_rate (discount v) = js_max (Fin (- 0.99)) (js_div (discount v) (Fin 100)) \<and>
   effective_rate (Fin (- 150)) = Fin (- 0.99) \<and>
   effective_rate (Fin (- 150)) \<noteq> Fin (- 1.5)"
proof -
  from calcNPV_later_rows [OF assms] obtain res where res: "calcNPV v = Some res"
    and later: "\<And>t. 1 \<le> t \<Longrightarrow> t \<le> nat (max 1 \<lfloor>y\<rfloor>) \<Longrightarrow>
        factor (rows res ! t) =
          js_div (Fin 1) (js_pow (js_add (Fin 1) (effective_rate (discount v))) t) \<and>
        pv (rows res ! t) =
          js_mul (js_sub (js_mul (rent v) (Fin 12)) (js_add (mgmt v) (tax v)))
            (js_div (Fin 1) (js_pow (js_add (Fin 1) (effective_rate (discount v))) t))"
    by blast
  have "\<exists>res. calcNPV v = Some res \<and>
     (\<forall>t. 1 \<le> t \<and> t \<le> nat (max 1 \<lfloor>y\<rfloor>) \<longrightarrow>
        factor (rows res ! t) =
          js_div (Fin 1) (js_pow (js_add (Fin 1) (effective_rate (discount v))) t) \<and>
        pv (rows res ! t) =
          js_mul (js_sub (js_mul (rent v) (Fin 12)) (js_add (mgmt v) (tax v)))
            (factor (rows res ! t)))"
  proof (intro exI conjI allI impI)
    show "calcNPV v = Some res" by (rule res)
  next
    fix t assume "1 \<le> t \<and> t \<le> nat (max 1 \<lfloor>y\<rfloor>)"
    with later [of t] show "factor (rows res ! t) =
          js_div (Fin 1) (js_pow (js_add (Fin 1) (effective_rate (discount v))) t)" by simp
  next
    fix t assume "1 \<le> t \<and> t \<le> nat (max 1 \<lfloor>y\<rfloor>)"
    with later [of t] show "pv (rows res ! t) =
          js_mul (js_sub (js_mul (rent v) (Fin 12)) (js_add (mgmt v) (tax v)))
            (factor (rows res ! t))" by simp
  qed
  moreover have "effective_rate (Fin (- 150)) = Fin (- 0.99)"
    by (simp add: effective_rate_def js_max_def)
  moreover have "effective_rate (discount v) =
      js_max (Fin (- 0.99)) (js_div (discount v) (Fin 100))"
    by (simp add: effective_rate_def)
  ultimately show ?thesis by simp
qed

text \<open>
  Witness of C4: two years at a discount of 100 percent and a net income of 10000 a year,
  where every operation is exact: \<open>r = 1\<close>, the factors are \<open>1 / 2\<close> and \<open>1 / 4\<close>, the
  present values 5000 and 2500.
\<close>

theorem calcNPV_discounting_witness:
  "vals.years \<lparr>price = Fin 20000, reno = Fin 0, mgmt = Fin 1000, tax = Fin 1000,
      rent = Fin 1000, discount = Fin 100, years = Fin 2\<rparr> = Fin 2 \<and>
   (\<exists>res. calcNPV \<lparr>price = Fin 20000, reno = Fin 0, mgmt = Fin 1000, tax = Fin 1000,
      rent = Fin 1000, discount = Fin 100, years = Fin 2\<rparr> = Some res \<and>
      factor (rows res ! 1) = Fin (1 / 2) \<and> pv (rows res ! 1) = Fin 5000 \<and>
      factor (rows res ! 2) = Fin (1 / 4) \<and> pv (rows res ! 2) = Fin 2500) \<and>
   effective_rate (Fin 100) = Fin 1 \<and>
   effective_rate (Fin (- 150)) = Fin (- 0.99)"
proof -
  let ?w = "\<lparr>price = Fin 20000, reno = Fin 0, mgmt = Fin 1000, tax = Fin 1000,
      rent = Fin 1000, discount = Fin 100, years = Fin 2\<rparr>"
  have y: "vals.years ?w = Fin 2" by simp
  from calcNPV_discounting [OF y] obtain res where res: "calcNPV ?w = Some res"
    and later: "\<And>t. 1 \<le> t \<and> t \<le> nat (max 1 \<lfloor>2::real\<rfloor>) \<Longrightarrow>
        factor (rows res ! t) =
          js_div (Fin 1) (js_pow (js_add (Fin 1) (effective_rate (discount ?w))) t) \<and>
        pv (rows res ! t) =
          js_mul (js_sub (js_mul (rent ?w) (Fin 12)) (js_add (mgmt ?w) (tax ?w)))
            (factor (rows res ! t))"
    and r150: "effective_rate (Fin (- 150)) = Fin (- 0.99)"
    by blast
  have r: "effective_rate (Fin 100) = Fin 1"
    by (simp add: effective_rate_def js_max_def)
  have "factor (rows res ! 1) = Fin (1 / 2) \<and> pv (rows res ! 1) = Fin 5000"
    using later [of 1] by (simp add: r js_sub_def)
  moreover have "factor (rows res ! 2) = Fin (1 / 4) \<and> pv (rows res ! 2) = Fin 2500"
    using later [of 2] by (simp add: r js_sub_def power2_eq_square)
  ultimately show ?thesis using res r r150 by simp
qed

text \<open>
  Claim C5. \<^verbatim>\<open>calcNPV\<close> returns, and row \<open>0\<close> of its rows has \<^verbatim>\<open>net = -invest\<close>,
  \<^verbatim>\<open>factor = 1\<close> and \<^verbatim>\<open>pv = -invest\<close>, where \<^verbatim>\<open>invest\<close> is the total investment of the ROI
  calculator, \<^verbatim>\<open>price + reno\<close>. (The loop does not end when \<^verbatim>\<open>years\<close> is \<^verbatim>\<open>Infinity\<close>, which
  no validated input is.)
\<close>

theorem calcNPV_row0:
  assumes "vals.years v \<noteq> PosInf"
  shows "\<exists>res. calcNPV v = Some res \<and> rows res \<noteq> [] \<and>
     year (rows res ! 0) = 0 \<and>
     net (rows res ! 0) = js_neg (invest (calcROI v)) \<and>
     factor (rows res ! 0) = Fin 1 \<and>
     pv (rows res ! 0) = js_neg (invest (calcROI v)) \<and>
     invest (calcROI v) = js_add (price v) (reno v)"
proof -
  from calcNPV_first_row_and_sums [OF assms] obtain res where "calcNPV v = Some res"
    and "rows res \<noteq> []"
    and "rows res ! 0 = \<lparr>year = 0, net = js_neg (js_add (price v) (reno v)), factor = Fin 1,
        pv = js_neg (js_add (price v) (reno v)),
        cumulative = js_add (Fin 0) (js_neg (js_add (price v) (reno v)))\<rparr>"
    by blast
  then show ?thesis by (auto simp: calcROI_fields)
qed

text \<open>Witness of C5: the documented example, where \<open>260000 + 17000\<close> is exact.\<close>

theorem calcNPV_row0_witness:
  "vals.years \<lparr>price = Fin 260000, reno = Fin 17000, mgmt = Fin 2639, tax = Fin 3022,
      rent = Fin 1700, discount = Fin 2, years = Fin 30\<rparr> \<noteq> PosInf \<and>
   (\<exists>res. calcNPV \<lparr>price = Fin 260000, reno = Fin 17000, mgmt = Fin 2639, tax = Fin 3022,
      rent = Fin 1700, discount = Fin 2, years = Fin 30\<rparr> = Some res \<and>
      year (rows res ! 0) = 0 \<and> net (rows res ! 0) = Fin (- 277000) \<and>
      factor (rows res ! 0) = Fin 1 \<and> pv (rows res ! 0) = Fin (- 277000))"
proof -
  let ?w = "\<lparr>price = Fin 260000, reno = Fin 17000, mgmt = Fin 2639, tax = Fin 3022,
      rent = Fin 1700, discount = Fin 2, years = Fin 30\<rparr>"
  have y: "vals.years ?w \<noteq> PosInf" by simp
  from calcNPV_row0 [OF y] obtain res where "calcNPV ?w = Some res"
    and "year (rows res ! 0) = 0" and "factor (rows res ! 0) = Fin 1"
    and "net (rows res ! 0) = js_neg (invest (calcROI ?w))"
    and "pv (rows res ! 0) = js_neg (invest (calcROI ?w))"
    by blast
  then show ?thesis by (simp add: calcROI_fields)
qed

text \<open>
  Claim C6. With a finite \<^verbatim>\<open>years\<close> input \<open>y\<close>, the horizon is \<open>max 1 \<lfloor>y\<rfloor>\<close>, the result has
  exactly horizon \<open>+ 1\<close> rows, and their \<^verbatim>\<open>year\<close> fields are \<open>0, 1, ..., \<close> horizon, strictly
  ascending.
\<close>

theorem calcNPV_rows_years:
  assumes "vals.years v = Fin y"
  shows "\<exists>res. calcNPV v = Some res \<and>
     npv_result.years res = js_max (Fin 1) (js_floor (vals.years v)) \<and>
     npv_result.years res = Fin (real (nat (max 1 \<lfloor>y\<rfloor>))) \<and>
     length (rows res) = nat (max 1 \<lfloor>y\<rfloor>) + 1 \<and>
     map year (rows res) = [0..<nat (max 1 \<lfloor>y\<rfloor>) + 1] \<and>
     sorted_wrt (<) (map year (rows res))"
proof -
  from calcNPV_later_rows [OF assms] obtain res where res: "calcNPV v = Some res"
    and yrs: "npv_result.years res = Fin (real (nat (max 1 \<lfloor>y\<rfloor>)))"
    and len: "length (rows res) = Suc (nat (max 1 \<lfloor>y\<rfloor>))"
    and asc: "map year (rows res) = [0..<Suc (nat (max 1 \<lfloor>y\<rfloor>))]"
    by blast
  have "sorted_wrt (<) (map year (rows res))"
    unfolding asc by (rule sorted_wrt_upt)
  with res yrs len asc show ?thesis
    by (simp add: assms js_max_floor_Fin del: js_floor.simps)
qed

text \<open>Witness of C6: three and a half years are floored to a horizon of three.\<close>

theorem calcNPV_rows_years_witness:
  "vals.years \<lparr>price = Fin 260000, reno = Fin 17000, mgmt = Fin 2639, tax = Fin 3022,
      rent = Fin 1700, discount = Fin 2, years = Fin (7 / 2)\<rparr> = Fin (7 / 2) \<and>
   (\<exists>res. calcNPV \<lparr>price = Fin 260000, reno = Fin 17000, mgmt = Fin 2639, tax = Fin 3022,
      rent = Fin 1700, discount = Fin 2, years = Fin (7 / 2)\<rparr> = Some res \<and>
      npv_result.years res = Fin 3 \<and> length (rows res) = 4 \<and>
      map year (rows res) = [0, 1, 2, 3])"
proof -
  let ?w = "\<lparr>price = Fin 260000, reno = Fin 17000, mgmt = Fin 2639, tax = Fin 3022,
      rent = Fin 1700, discount = Fin 2, years = Fin (7 / 2)\<rparr>"
  have y: "vals.years ?w = Fin (7 / 2)" by simp
  have fl: "\<lfloor>7 / 2 :: real\<rfloor> = 3" by linarith
  have upt: "[0..<4] = [0, 1, 2, 3::nat]" by (simp add: upt_rec)
  from calcNPV_rows_years [OF y] obtain res where "calcNPV ?w = Some res"
    and "npv_result.years res = Fin (real (nat (max 1 \<lfloor>7 / 2 :: real\<rfloor>)))"
    and "length (rows res) = nat (max 1 \<lfloor>7 / 2 :: real\<rfloor>) + 1"
    and "map year (rows res) = [0..<nat (max 1 \<lfloor>7 / 2 :: real\<rfloor>) + 1]"
    by blast
  then show ?thesis unfolding fl by (simp add: upt)
qed

text \<open>
  Claim C7. Every row's \<^verbatim>\<open>cumulative\<close> is the sum (added with the \<^verbatim>\<open>+\<close> of the code from
  \<open>0\<close>, in the order of the rows) of the \<^verbatim>\<open>pv\<close> of the rows up to and including it; \<^verbatim>\<open>npv\<close>
  is the last row's \<^verbatim>\<open>cumulative\<close>, that is the sum of the \<^verbatim>\<open>pv\<close> of all rows.
\<close>

theorem calcNPV_cumulative:
  assumes "vals.years v \<noteq> PosInf"
  shows "\<exists>res. calcNPV v = Some res \<and> rows res \<noteq> [] \<and>
     (\<forall>i<length (rows res).
        cumulative (rows res ! i) = foldl js_add (Fin 0) (map pv (take (Suc i) (rows res)))) \<and>
     npv res = cumulative (last (rows res)) \<and>
     npv res = foldl js_add (Fin 0) (map pv (rows res))"
proof -
  from calcNPV_first_row_and_sums [OF assms] obtain res where res: "calcNPV v = Some res"
    and sums: "running_sums (npv res, rows res)"
    by blast
  from running_sums_total [OF sums] have "npv res = foldl js_add (Fin 0) (map pv (rows res))"
    by simp
  with res sums show ?thesis by (auto simp: running_sums_def)
qed

text \<open>
  Witness of C7: an investment of 20000, a net income of 10000 a year and a discount of
  100 percent over two years, where every operation is exact: the present values are
  \<open>- 20000\<close>, 5000 and 2500, their running sums \<open>- 20000\<close>, \<open>- 15000\<close> and \<open>- 12500\<close>.
\<close>

theorem calcNPV_cumulative_witness:
  "vals.years \<lparr>price = Fin 20000, reno = Fin 0, mgmt = Fin 1000, tax = Fin 1000,
      rent = Fin 1000, discount = Fin 100, years = Fin 2\<rparr> \<noteq> PosInf \<and>
   (\<exists>res. calcNPV \<lparr>price = Fin 20000, reno = Fin 0, mgmt = Fin 1000, tax = Fin 1000,
      rent = Fin 1000, discount = Fin 100, years = Fin 2\<rparr> = Some res \<and>
      map pv (rows res) = [Fin (- 20000), Fin 5000, Fin 2500] \<and>
      map cumulative (rows res) = [Fin (- 20000), Fin (- 15000), Fin (- 12500)] \<and>
      npv res = Fin (- 12500) \<and>
      npv res = foldl js_add (Fin 0) (map pv (rows res)))"
proof -
  let ?w = "\<lparr>price = Fin 20000, reno = Fin 0, mgmt = Fin 1000, tax = Fin 1000,
      rent = Fin 1000, discount = Fin 100, years = Fin 2\<rparr>"
  have y: "vals.years ?w \<noteq> PosInf" by simp
  have run: "calcNPV ?w = Some \<lparr>npv = Fin (- 12500),
     rows = [\<lparr>year = 0, net = Fin (- 20000), factor = Fin 1, pv = Fin (- 20000),
               cumulative = Fin (- 20000)\<rparr>,
             \<lparr>year = 1, net = Fin 10000, factor = Fin (1 / 2), pv = Fin 5000,
               cumulative = Fin (- 15000)\<rparr>,
             \<lparr>year = 2, net = Fin 10000, factor = Fin (1 / 4), pv = Fin 2500,
               cumulative = Fin (- 12500)\<rparr>],
     discountPct = Fin 100, years = Fin 2\<rparr>"
    by (simp add: calcNPV_def Let_def npv_loop.simps npv_step_def effective_rate_def
        js_max_def js_sub_def power2_eq_square)
  from calcNPV_cumulative [OF y] obtain res where "calcNPV ?w = Some res"
    and "npv res = foldl js_add (Fin 0) (map pv (rows res))"
    by blast
  with run show ?thesis by auto
qed

subsection \<open>The documented example\<close>

lemma effective_rate_Fin: "effective_rate (Fin d) = Fin (max (- 0.99) (d / 100))"
  by (simp add: effective_rate_def js_max_def max_def)

lemma example_run:
  "\<exists>res. calcNPV \<lparr>price = Fin 260000, reno = Fin 17000, mgmt = Fin 2639, tax = Fin 3022,
      rent = Fin 1700, discount = Fin 2, years = Fin 30\<rparr> = Some res \<and>
     pv (rows res ! 0) = Fin (- 277000) \<and>
     factor (rows res ! 1) = Fin (50 / 51) \<and>
     pv (rows res ! 1) = Fin 14450"
proof -
  let ?w = "\<lparr>price = Fin 260000, reno = Fin 17000, mgmt = Fin 2639, tax = Fin 3022,
      rent = Fin 1700, discount = Fin 2, years = Fin 30\<rparr>"
  have y: "vals.years ?w = Fin 30" by simp
  have y': "vals.years ?w \<noteq> PosInf" by simp
  from calcNPV_later_rows [OF y] obtain res where res: "calcNPV ?w = Some res"
    and later: "\<And>t. 1 \<le> t \<and> t \<le> nat (max 1 \<lfloor>30::real\<rfloor>) \<Longrightarrow>
        factor (rows res ! t) =
          js_div (Fin 1) (js_pow (js_add (Fin 1) (effective_rate (discount ?w))) t) \<and>
        pv (rows res ! t) =
          js_mul (js_sub (js_mul (rent ?w) (Fin 12)) (js_add (mgmt ?w) (tax ?w)))
            (js_div (Fin 1) (js_pow (js_add (Fin 1) (effective_rate (discount ?w))) t))"
    by blast
  from calcNPV_first_row_and_sums [OF y'] res
  have r0: "pv (rows res ! 0) = Fin (- 277000)" by auto
  have r1: "factor (rows res ! 1) = Fin (50 / 51) \<and> pv (rows res ! 1) = Fin 14450"
    using later [of 1] by (simp add: effective_rate_Fin js_sub_def)
  from res r0 r1 show ?thesis by simp
qed

text \<open>
  Claim C8, as amended. For price 260000, renovation 17000, management 2639, tax 3022,
  rent 1700, discount 2 and 30 years: \<^verbatim>\<open>invest\<close> is 277000, \<^verbatim>\<open>annualNet\<close> is 14739, \<^verbatim>\<open>roi\<close>
  is 5.32 and \<^verbatim>\<open>payback\<close> is 18.79 to two decimals, the \<^verbatim>\<open>factor\<close> of year 1 is 0.9804
  to four decimals, the \<^verbatim>\<open>pv\<close> of year 1 is 14450 (not 14449.02), and the \<^verbatim>\<open>pv\<close> of row
  \<open>0\<close> is \<open>- 277000\<close>.
\<close>

theorem example_values:
  "invest (calcROI \<lparr>price = Fin 260000, reno = Fin 17000, mgmt = Fin 2639, tax = Fin 3022,
      rent = Fin 1700, discount = Fin 2, years = Fin 30\<rparr>) = Fin 277000 \<and>
   annualNet (calcROI \<lparr>price = Fin 260000, reno = Fin 17000, mgmt = Fin 2639, tax = Fin 3022,
      rent = Fin 1700, discount = Fin 2, years = Fin 30\<rparr>) = Fin 14739 \<and>
   close_to 0.005 (roi (calcROI \<lparr>price = Fin 260000, reno = Fin 17000, mgmt = Fin 2639,
      tax = Fin 3022, rent = Fin 1700, discount = Fin 2, years = Fin 30\<rparr>)) 5.32 \<and>
   close_to 0.005 (payback (calcROI \<lparr>price = Fin 260000, reno = Fin 17000, mgmt = Fin 2639,
      tax = Fin 3022, rent = Fin 1700, discount = Fin 2, years = Fin 30\<rparr>)) 18.79 \<and>
   (\<exists>res. calcNPV \<lparr>price = Fin 260000, reno = Fin 17000, mgmt = Fin 2639, tax = Fin 3022,
      rent = Fin 1700, discount = Fin 2, years = Fin 30\<rparr> = Some res \<and>
      close_to 0.00005 (factor (rows res ! 1)) 0.9804 \<and>
      pv (rows res ! 1) = Fin 14450 \<and>
      pv (rows res ! 0) = Fin (- 277000))"
proof -
  from example_run obtain res where
    "calcNPV \<lparr>price = Fin 260000, reno = Fin 17000, mgmt = Fin 2639, tax = Fin 3022,
      rent = Fin 1700, discount = Fin 2, years = Fin 30\<rparr> = Some res"
    "pv (rows res ! 0) = Fin (- 277000)" "factor (rows res ! 1) = Fin (50 / 51)"
    "pv (rows res ! 1) = Fin 14450"
    by blast
  moreover have "close_to 0.00005 (Fin (50 / 51)) 0.9804" by (simp add: close_to_def)
  ultimately show ?thesis
    by (auto simp: calcROI_fields js_sub_def close_to_def)
qed

text \<open>
  Counterexample to C8 as stated: on the example the \<^verbatim>\<open>pv\<close> of year 1 is
  \<open>14739 / 1.02 = 14450\<close>, which is \<open>0.98\<close> away from the stated 14449.02.
\<close>

theorem example_year1_pv_counterexample:
  "calcNPV \<lparr>price = Fin 260000, reno = Fin 17000, mgmt = Fin 2639, tax = Fin 3022,
      rent = Fin 1700, discount = Fin 2, years = Fin 30\<rparr> \<noteq> None \<and>
   pv (rows (the (calcNPV \<lparr>price = Fin 260000, reno = Fin 17000, mgmt = Fin 2639,
      tax = Fin 3022, rent = Fin 1700, discount = Fin 2, years = Fin 30\<rparr>)) ! 1) = Fin 14450 \<and>
   \<not> close_to 0.5 (pv (rows (the (calcNPV \<lparr>price = Fin 260000, reno = Fin 17000, mgmt = Fin 2639,
      tax = Fin 3022, rent = Fin 1700, discount = Fin 2, years = Fin 30\<rparr>)) ! 1)) 14449.02"
proof -
  from example_run obtain res where
    "calcNPV \<lparr>price = Fin 260000, reno = Fin 17000, mgmt = Fin 2639, tax = Fin 3022,
      rent = Fin 1700, discount = Fin 2, years = Fin 30\<rparr> = Some res"
    "pv (rows res ! 1) = Fin 14450"
    by blast
  then show ?thesis by (simp add: close_to_def)
qed

section \<open>Properties of reading and validating\<close>

lemma readInputValue_cases:
  "readInputValue parseFloat doc ident fallback =
    (case parsed_entry parseFloat doc ident of
       None \<Rightarrow> fallback
     | Some a \<Rightarrow> if js_isFinite a then a else fallback)"
  by (simp add: readInputValue_def parsed_entry_def Let_def split: option.splits)

lemma readInputValue_invalid:
  "entry_invalid parseFloat doc ident \<Longrightarrow> readInputValue parseFloat doc ident fallback = fallback"
  by (simp add: readInputValue_cases entry_invalid_def split: option.splits)

lemma readInputValue_Fin:
  "parsed_entry parseFloat doc ident = Some (Fin x) \<Longrightarrow>
     readInputValue parseFloat doc ident fallback = Fin x"
  by (simp add: readInputValue_cases)

lemma readInputValue_finite:
  "js_isFinite fallback \<Longrightarrow> js_isFinite (readInputValue parseFloat doc ident fallback)"
  by (simp add: readInputValue_cases split: option.splits)

lemma js_isFinite_iff: "js_isFinite a \<longleftrightarrow> (\<exists>x. a = Fin x)"
  by (cases a) simp_all

lemma horizon_finite: "js_isFinite a \<Longrightarrow> js_isFinite (js_max (Fin 1) (js_floor a))"
  by (auto simp: js_isFinite_iff js_max_floor_Fin simp del: js_floor.simps)

lemma validateAndReadAll_fields:
  "price (fst (validateAndReadAll parseFloat doc)) = readInputValue parseFloat doc ''price'' (Fin 260000)"
  "reno (fst (validateAndReadAll parseFloat doc)) = readInputValue parseFloat doc ''reno'' (Fin 17000)"
  "mgmt (fst (validateAndReadAll parseFloat doc)) = readInputValue parseFloat doc ''mgmt'' (Fin 2639)"
  "tax (fst (validateAndReadAll parseFloat doc)) = readInputValue parseFloat doc ''tax'' (Fin 3022)"
  "rent (fst (validateAndReadAll parseFloat doc)) = readInputValue parseFloat doc ''rent'' (Fin 1700)"
  "discount (fst (validateAndReadAll parseFloat doc)) = readInputValue parseFloat doc ''discount'' (Fin 2)"
  "vals.years (fst (validateAndReadAll parseFloat doc)) =
     js_max (Fin 1) (js_floor (readInputValue parseFloat doc ''years'' (Fin 30)))"
  by (simp_all add: validateAndReadAll_def Let_def DEFAULTS_def)

lemma calcNPV_returns: "js_isFinite (vals.years v) \<Longrightarrow> calcNPV v \<noteq> None"
proof -
  assume "js_isFinite (vals.years v)"
  then obtain y where "vals.years v = Fin y" by (auto simp: js_isFinite_iff)
  from calcNPV_later_rows [OF this] show ?thesis by auto
qed

text \<open>
  Claim C9. For each of the seven fields, an invalid entry (no element, or a text that
  does not parse to a finite number) is replaced by the field's default: 260000, 17000,
  2639, 3022, 1700, 2 and 30. Every field of the validated inputs is finite, these inputs
  are what \<^verbatim>\<open>calculate\<close> gives to both calculators, and on them \<^verbatim>\<open>calcNPV\<close> returns.
\<close>

theorem validateAndReadAll_defaults:
  assumes "vs = fst (validateAndReadAll parseFloat doc)"
  shows "(entry_invalid parseFloat doc ''price'' \<longrightarrow> price vs = Fin 260000) \<and>
     (entry_invalid parseFloat doc ''reno'' \<longrightarrow> reno vs = Fin 17000) \<and>
     (entry_invalid parseFloat doc ''mgmt'' \<longrightarrow> mgmt vs = Fin 2639) \<and>
     (entry_invalid parseFloat doc ''tax'' \<longrightarrow> tax vs = Fin 3022) \<and>
     (entry_invalid parseFloat doc ''rent'' \<longrightarrow> rent vs = Fin 1700) \<and>
     (entry_invalid parseFloat doc ''discount'' \<longrightarrow> discount vs = Fin 2) \<and>
     (entry_invalid parseFloat doc ''years'' \<longrightarrow> vals.years vs = Fin 30) \<and>
     js_isFinite (price vs) \<and> js_isFinite (reno vs) \<and> js_isFinite (mgmt vs) \<and>
     js_isFinite (tax vs) \<and> js_isFinite (rent vs) \<and> js_isFinite (discount vs) \<and>
     js_isFinite (vals.years vs) \<and>
     calculate parseFloat doc = (calcROI vs, calcNPV vs) \<and> calcNPV vs \<noteq> None"
proof -
  have fin: "js_isFinite (price vs)" "js_isFinite (reno vs)" "js_isFinite (mgmt vs)"
    "js_isFinite (tax vs)" "js_isFinite (rent vs)" "js_isFinite (discount vs)"
    "js_isFinite (vals.years vs)"
    unfolding assms validateAndReadAll_fields
    by (simp_all add: readInputValue_finite horizon_finite del: js_floor.simps)
  have y30: "js_max (Fin 1) (js_floor (Fin 30)) = Fin 30"
    by (simp add: js_max_def)
  have dflt: "entry_invalid parseFloat doc ''price'' \<longrightarrow> price vs = Fin 260000"
    "entry_invalid parseFloat doc ''reno'' \<longrightarrow> reno vs = Fin 17000"
    "entry_invalid parseFloat doc ''mgmt'' \<longrightarrow> mgmt vs = Fin 2639"
    "entry_invalid parseFloat doc ''tax'' \<longrightarrow> tax vs = Fin 3022"
    "entry_invalid parseFloat doc ''rent'' \<longrightarrow> rent vs = Fin 1700"
    "entry_invalid parseFloat doc ''discount'' \<longrightarrow> discount vs = Fin 2"
    "entry_invalid parseFloat doc ''years'' \<longrightarrow> vals.years vs = Fin 30"
    unfolding assms validateAndReadAll_fields
    by (simp_all add: readInputValue_invalid y30 del: js_floor.simps)
  have calc: "calculate parseFloat doc = (calcROI vs, calcNPV vs)"
    by (simp add: calculate_def Let_def assms)
  from fin dflt calc calcNPV_returns [OF fin(7)] show ?thesis by simp
qed

text \<open>
  Claim C10. An entry that parses to a finite number \<open>x\<close> is returned unchanged, negative
  or not, in the six fields other than \<^verbatim>\<open>years\<close>, which becomes \<open>max 1 \<lfloor>x\<rfloor>\<close>. A price
  \<open>x \<le> 0\<close> and a rent \<open>x < 0\<close> get their message and are still returned as they are, and
  \<^verbatim>\<open>calculate\<close> gives the validated inputs to both calculators.
\<close>

theorem validateAndReadAll_keeps_finite:
  assumes "vs = fst (validateAndReadAll parseFloat doc)"
  shows "(parsed_entry parseFloat doc ''price'' = Some (Fin x) \<longrightarrow> price vs = Fin x) \<and>
     (parsed_entry parseFloat doc ''reno'' = Some (Fin x) \<longrightarrow> reno vs = Fin x) \<and>
     (parsed_entry parseFloat doc ''mgmt'' = Some (Fin x) \<longrightarrow> mgmt vs = Fin x) \<and>
     (parsed_entry parseFloat doc ''tax'' = Some (Fin x) \<longrightarrow> tax vs = Fin x) \<and>
     (parsed_entry parseFloat doc ''rent'' = Some (Fin x) \<longrightarrow> rent vs = Fin x) \<and>
     (parsed_entry parseFloat doc ''discount'' = Some (Fin x) \<longrightarrow> discount vs = Fin x) \<and>
     (parsed_entry parseFloat doc ''years'' = Some (Fin x) \<longrightarrow>
        vals.years vs = Fin (of_int (max 1 \<lfloor>x\<rfloor>))) \<and>
     (parsed_entry parseFloat doc ''price'' = Some (Fin x) \<and> x \<le> 0 \<longrightarrow>
        (''price-msg'', ''Price must be positive'') \<in> set (snd (validateAndReadAll parseFloat doc)) \<and>
        price vs = Fin x) \<and>
     (parsed_entry parseFloat doc ''rent'' = Some (Fin x) \<and> x < 0 \<longrightarrow>
        (''rent-msg'', ''Rent must be non-negative'') \<in> set (snd (validateAndReadAll parseFloat doc)) \<and>
        rent vs = Fin x) \<and>
     calculate parseFloat doc = (calcROI vs, calcNPV vs)"
proof -
  have yr: "js_max (Fin 1) (js_floor (Fin x)) = Fin (of_int (max 1 \<lfloor>x\<rfloor>))"
    by (simp add: js_max_floor_Fin del: js_floor.simps)
  have keep: "parsed_entry parseFloat doc ''price'' = Some (Fin x) \<longrightarrow> price vs = Fin x"
    "parsed_entry parseFloat doc ''reno'' = Some (Fin x) \<longrightarrow> reno vs = Fin x"
    "parsed_entry parseFloat doc ''mgmt'' = Some (Fin x) \<longrightarrow> mgmt vs = Fin x"
    "parsed_entry parseFloat doc ''tax'' = Some (Fin x) \<longrightarrow> tax vs = Fin x"
    "parsed_entry parseFloat doc ''rent'' = Some (Fin x) \<longrightarrow> rent vs = Fin x"
    "parsed_entry parseFloat doc ''discount'' = Some (Fin x) \<longrightarrow> discount vs = Fin x"
    "parsed_entry parseFloat doc ''years'' = Some (Fin x) \<longrightarrow>
        vals.years vs = Fin (of_int (max 1 \<lfloor>x\<rfloor>))"
    unfolding assms validateAndReadAll_fields
    by (simp_all add: readInputValue_Fin yr del: js_floor.simps)
  have msg_price: "(''price-msg'', ''Price must be positive'') \<in> set (snd (validateAndReadAll parseFloat doc))"
    if "parsed_entry parseFloat doc ''price'' = Some (Fin x)" "x \<le> 0"
  proof -
    from that keep(1) have "price (fst (validateAndReadAll parseFloat doc)) = Fin x"
      by (simp add: assms)
    then have "js_le (price (fst (validateAndReadAll parseFloat doc))) (Fin 0)"
      using that(2) by simp
    then show ?thesis by (simp add: validateAndReadAll_def Let_def)
  qed
  have msg_rent: "(''rent-msg'', ''Rent must be non-negative'') \<in> set (snd (validateAndReadAll parseFloat doc))"
    if "parsed_entry parseFloat doc ''rent'' = Some (Fin x)" "x < 0"
  proof -
    from that keep(5) have "rent (fst (validateAndReadAll parseFloat doc)) = Fin x"
      by (simp add: assms)
    then have "js_lt (rent (fst (validateAndReadAll parseFloat doc))) (Fin 0)"
      using that(2) by simp
    then show ?thesis by (simp add: validateAndReadAll_def Let_def)
  qed
  have calc: "calculate parseFloat doc = (calcROI vs, calcNPV vs)"
    by (simp add: calculate_def Let_def assms)
  from keep msg_price msg_rent calc show ?thesis by blast
qed

subsection \<open>An example page\<close>

lemma example_entries:
  "parsed_entry example_parse example_page ''price'' = Some (Fin (- 5))"
  "parsed_entry example_parse example_page ''reno'' = None"
  "parsed_entry example_parse example_page ''mgmt'' = None"
  "parsed_entry example_parse example_page ''tax'' = None"
  "parsed_entry example_parse example_page ''rent'' = Some NaN"
  "parsed_entry example_parse example_page ''discount'' = Some PosInf"
  "parsed_entry example_parse example_page ''years'' = Some (Fin 2.7)"
  by (simp_all add: parsed_entry_def example_parse_def example_page_def)

lemma finite_entries:
  "parsed_entry example_parse finite_page ''price'' = Some (Fin (- 5))"
  "parsed_entry example_parse finite_page ''reno'' = Some (Fin 0)"
  "parsed_entry example_parse finite_page ''mgmt'' = Some (Fin 10)"
  "parsed_entry example_parse finite_page ''tax'' = Some (Fin 20)"
  "parsed_entry example_parse finite_page ''rent'' = Some (Fin (- 1))"
  "parsed_entry example_parse finite_page ''discount'' = Some (Fin (- 150))"
  "parsed_entry example_parse finite_page ''years'' = Some (Fin 2.7)"
  by (simp_all add: parsed_entry_def example_parse_def finite_page_def)

lemma floor_2_7: "\<lfloor>2.7 :: real\<rfloor> = 2"
  by linarith

text \<open>
  Witness of C9. In the first page two entries do not parse to a finite number and three
  elements are missing; in the empty page all seven are, and the result is \<^verbatim>\<open>DEFAULTS\<close>.
\<close>

theorem validateAndReadAll_defaults_witness:
  "entry_invalid example_parse example_page ''rent'' \<and>
   entry_invalid example_parse example_page ''discount'' \<and>
   entry_invalid example_parse example_page ''reno'' \<and>
   fst (validateAndReadAll example_parse example_page) =
     \<lparr>price = Fin (- 5), reno = Fin 17000, mgmt = Fin 2639, tax = Fin 3022, rent = Fin 1700,
      discount = Fin 2, years = Fin 2\<rparr> \<and>
   calcNPV (fst (validateAndReadAll example_parse example_page)) \<noteq> None \<and>
   entry_invalid example_parse Map.empty ''price'' \<and>
   entry_invalid example_parse Map.empty ''reno'' \<and>
   entry_invalid example_parse Map.empty ''mgmt'' \<and>
   entry_invalid example_parse Map.empty ''tax'' \<and>
   entry_invalid example_parse Map.empty ''rent'' \<and>
   entry_invalid example_parse Map.empty ''discount'' \<and>
   entry_invalid example_parse Map.empty ''years'' \<and>
   fst (validateAndReadAll example_parse Map.empty) = DEFAULTS"
proof -
  have inv: "entry_invalid example_parse example_page ''rent''"
    "entry_invalid example_parse example_page ''discount''"
    "entry_invalid example_parse example_page ''reno''"
    by (simp_all add: entry_invalid_def example_entries)
  have all: "fst (validateAndReadAll example_parse example_page) =
     \<lparr>price = Fin (- 5), reno = Fin 17000, mgmt = Fin 2639, tax = Fin 3022, rent = Fin 1700,
      discount = Fin 2, years = Fin 2\<rparr>"
    by (simp add: validateAndReadAll_def Let_def DEFAULTS_def readInputValue_cases
        example_entries js_max_floor_Fin floor_2_7 del: js_floor.simps)
  have ret: "calcNPV (fst (validateAndReadAll example_parse example_page)) \<noteq> None"
    using validateAndReadAll_defaults [OF refl, of example_parse example_page] by simp
  have inv0: "entry_invalid example_parse Map.empty ident" for ident
    by (simp add: entry_invalid_def parsed_entry_def)
  have "fst (validateAndReadAll example_parse Map.empty) = DEFAULTS"
    using validateAndReadAll_defaults [OF refl, of example_parse Map.empty]
    by (intro vals.equality) (simp_all add: inv0 DEFAULTS_def)
  with inv all ret inv0 show ?thesis by simp
qed

text \<open>
  Witness of C10. All seven entries of the second page are finite and returned as they
  are, the years as \<open>max 1 \<lfloor>2.7\<rfloor> = 2\<close>; the negative price and rent are flagged and reach
  the ROI calculator, whose \<^verbatim>\<open>invest\<close> is \<open>- 5 + 0\<close>.
\<close>

theorem validateAndReadAll_keeps_finite_witness:
  "parsed_entry example_parse finite_page ''price'' = Some (Fin (- 5)) \<and>
   parsed_entry example_parse finite_page ''reno'' = Some (Fin 0) \<and>
   parsed_entry example_parse finite_page ''mgmt'' = Some (Fin 10) \<and>
   parsed_entry example_parse finite_page ''tax'' = Some (Fin 20) \<and>
   parsed_entry example_parse finite_page ''rent'' = Some (Fin (- 1)) \<and>
   parsed_entry example_parse finite_page ''discount'' = Some (Fin (- 150)) \<and>
   parsed_entry example_parse finite_page ''years'' = Some (Fin 2.7) \<and>
   fst (validateAndReadAll example_parse finite_page) =
     \<lparr>price = Fin (- 5), reno = Fin 0, mgmt = Fin 10, tax = Fin 20, rent = Fin (- 1),
      discount = Fin (- 150), years = Fin 2\<rparr> \<and>
   (''price-msg'', ''Price must be positive'') \<in>
     set (snd (validateAndReadAll example_parse finite_page)) \<and>
   (''rent-msg'', ''Rent must be non-negative'') \<in>
     set (snd (validateAndReadAll example_parse finite_page)) \<and>
   invest (fst (calculate example_parse finite_page)) = Fin (- 5) \<and>
   annualNet (fst (calculate example_parse finite_page)) = Fin (- 42)"
proof -
  note k = validateAndReadAll_keeps_finite [OF refl, of example_parse finite_page]
  have flds: "price (fst (validateAndReadAll example_parse finite_page)) = Fin (- 5)"
    "reno (fst (validateAndReadAll example_parse finite_page)) = Fin 0"
    "mgmt (fst (validateAndReadAll example_parse finite_page)) = Fin 10"
    "tax (fst (validateAndReadAll example_parse finite_page)) = Fin 20"
    "rent (fst (validateAndReadAll example_parse finite_page)) = Fin (- 1)"
    "discount (fst (validateAndReadAll example_parse finite_page)) = Fin (- 150)"
    "vals.years (fst (validateAndReadAll example_parse finite_page)) = Fin 2"
    using k [of "- 5"] k [of 0] k [of 10] k [of 20] k [of "- 1"] k [of "- 150"] k [of "2.7"]
    by (simp_all add: finite_entries floor_2_7)
  have msgs: "(''price-msg'', ''Price must be positive'') \<in>
      set (snd (validateAndReadAll example_parse finite_page))"
    "(''rent-msg'', ''Rent must be non-negative'') \<in>
      set (snd (validateAndReadAll example_parse finite_page))"
    using k [of "- 5"] k [of "- 1"] by (simp_all add: finite_entries)
  have c: "calculate example_parse finite_page =
      (calcROI (fst (validateAndReadAll example_parse finite_page)),
       calcNPV (fst (validateAndReadAll example_parse finite_page)))"
    using k [of 0] by simp
  have all: "fst (validateAndReadAll example_parse finite_page) =
     \<lparr>price = Fin (- 5), reno = Fin 0, mgmt = Fin 10, tax = Fin 20, rent = Fin (- 1),
      discount = Fin (- 150), years = Fin 2\<rparr>"
    by (intro vals.equality) (simp_all add: flds)
  have roi: "invest (fst (calculate example_parse finite_page)) = Fin (- 5)"
    "annualNet (fst (calculate example_parse finite_page)) = Fin (- 42)"
    unfolding c by (simp_all add: calcROI_fields flds js_sub_def)
  from all msgs roi show ?thesis by (simp add: finite_entries)
qed

end
